theory Spec2Isabelle
  imports Complex_Main "HOL-Library.Sublist"
begin

section \<open>The task store of server.js\<close>

text \<open>
  The program is one Express application, \<^verbatim>\<open>server.js\<close>. Its state is the pair of
  module-level variables \<^verbatim>\<open>tasks\<close> (an array of task objects) and \<^verbatim>\<open>nextId\<close>
  (a number). Five route handlers read and write that state. Each handler is embedded as a
  function from the request's inputs and the state to the response and the new state.

  Conventions of the embedding:
  \<^item> A value that came out of \<^verbatim>\<open>express.json()\<close> is a \<open>json\<close>. A JavaScript value that may
    also be \<^verbatim>\<open>undefined\<close> is a \<open>json option\<close>, with \<open>None\<close> for \<^verbatim>\<open>undefined\<close>.
  \<^item> \<^verbatim>\<open>req.body\<close> is the parsed object: a map from property names to values. Reading a
    property that the object does not have yields \<^verbatim>\<open>undefined\<close>. The handlers read the
    three properties \<^verbatim>\<open>title\<close>, \<^verbatim>\<open>description\<close> and \<^verbatim>\<open>completed\<close> only, so a body that is
    a JSON array, or the empty object that stands for a body with nothing to parse, is the
    empty map. A request that \<^verbatim>\<open>express.json()\<close> rejects never reaches a handler.
  \<^item> \<^verbatim>\<open>new Date().toISOString()\<close> reads the clock; the reading is a parameter \<open>now\<close>.
  \<^item> \<^verbatim>\<open>nextId\<close> and the \<^verbatim>\<open>id\<close> fields are JavaScript numbers holding integers. They are
    embedded as \<open>int\<close>, which is exact as long as the counter stays below \<open>2 ^ 53\<close>, the
    range in which JavaScript numbers represent every integer and \<^verbatim>\<open>nextId++\<close> is
    exact.
  \<^item> Strings are lists of 8-bit characters; a character above \<open>0x7F\<close> stands for the
    code unit of the same number. Code units above \<open>0xFF\<close> are not represented.
\<close>

subsection \<open>Values\<close>

datatype json =
    JNull
  | JBool bool
  | JNum real
  | JStr string
  | JArr "json list"
  | JObj "(string \<times> json) list"

type_synonym body = "string \<rightharpoonup> json"

text \<open>JavaScript's ToBoolean on a parsed value: \<^verbatim>\<open>null\<close>, \<^verbatim>\<open>false\<close>, zero and the empty
  string are falsy; arrays and objects are truthy.\<close>

fun truthy :: "json \<Rightarrow> bool" where
  "truthy JNull = False"
| "truthy (JBool b) = b"
| "truthy (JNum x) = (x \<noteq> 0)"
| "truthy (JStr s) = (s \<noteq> [])"
| "truthy (JArr _) = True"
| "truthy (JObj _) = True"

text \<open>\<^verbatim>\<open>a || b\<close> where \<open>a\<close> may be \<^verbatim>\<open>undefined\<close>.\<close>

fun js_or :: "json option \<Rightarrow> json \<Rightarrow> json" where
  "js_or None d = d"
| "js_or (Some v) d = (if truthy v then v else d)"

subsection \<open>The data model\<close>

text \<open>A task object. The field \<^verbatim>\<open>id\<close> is named \<open>id_t\<close> here; \<^verbatim>\<open>updatedAt\<close> is \<open>None\<close>
  while the object has no such property.\<close>

record task =
  id_t :: int
  title :: json
  description :: json
  completed :: json
  createdAt :: string
  updatedAt :: "string option"

record state =
  tasks :: "task list"
  nextId :: int

text \<open>The module's initial state (lines 14 to 17); \<open>boot\<close> is the clock reading at start-up.\<close>

definition init :: "string \<Rightarrow> state" where
  "init boot =
     \<lparr> tasks = [\<lparr> id_t = 1, title = JStr ''Tarefa Exemplo'',
                  description = JStr ''Primeira tarefa'', completed = JBool False,
                  createdAt = boot, updatedAt = None \<rparr>],
       nextId = 2 \<rparr>"

subsection \<open>Responses\<close>

datatype payload = Single task | Collection "task list"

record response =
  status :: nat
  success :: bool
  message :: "string option"
  data :: "payload option"
  total :: "nat option"

definition msg_required :: string where
  "msg_required = ''O campo '' @ [CHR 0x22] @ ''title'' @ [CHR 0x22, CHR '' '', CHR 0xE9]
                   @ '' obrigat'' @ [CHR 0xF3] @ ''rio''"

definition msg_not_found :: string where
  "msg_not_found = ''Tarefa n'' @ [CHR 0xE3] @ ''o encontrada''"

definition not_found :: response where
  "not_found = \<lparr> status = 404, success = False, message = Some msg_not_found,
                  data = None, total = None \<rparr>"

subsection \<open>parseInt\<close>

text \<open>
  \<^verbatim>\<open>parseInt(string)\<close> with no radix, as ECMAScript defines it: leading white space is
  dropped, one sign is read, a prefix \<^verbatim>\<open>0x\<close> or \<^verbatim>\<open>0X\<close> selects radix 16 (radix 10
  otherwise), and the longest run of digits of that radix is the numeral. Whatever
  follows the run is ignored. An empty run yields \<^verbatim>\<open>NaN\<close>, which is \<open>None\<close> here.
  The result is the mathematical integer; JavaScript rounds it to a number, which changes
  nothing below \<open>2 ^ 53\<close> and keeps a larger one at or above \<open>2 ^ 53\<close>, so the
  comparison with a stored id below \<open>2 ^ 53\<close> comes out the same. The white space of
  ECMAScript that fits the string type is tab, line feed, vertical tab, form feed,
  carriage return, space and no-break space.
\<close>

definition is_ws :: "char \<Rightarrow> bool" where
  "is_ws c = (of_char c \<in> {0x09, 0x0A, 0x0B, 0x0C, 0x0D, 0x20, 0xA0 :: nat})"

definition digit_val :: "char \<Rightarrow> nat option" where
  "digit_val c =
     (let n = (of_char c :: nat) in
      if 48 \<le> n \<and> n \<le> 57 then Some (n - 48)
      else if 97 \<le> n \<and> n \<le> 122 then Some (n - 87)
      else if 65 \<le> n \<and> n \<le> 90 then Some (n - 55)
      else None)"

definition is_digit :: "nat \<Rightarrow> char \<Rightarrow> bool" where
  "is_digit R c = (case digit_val c of None \<Rightarrow> False | Some d \<Rightarrow> d < R)"

definition numeral_value :: "nat \<Rightarrow> string \<Rightarrow> nat" where
  "numeral_value R Z = foldl (\<lambda>acc c. acc * R + (case digit_val c of None \<Rightarrow> 0 | Some d \<Rightarrow> d)) 0 Z"

definition parseInt :: "string \<Rightarrow> int option" where
  "parseInt inputString =
     (let S = dropWhile is_ws inputString;
          sign = (if S \<noteq> [] \<and> hd S = CHR ''-'' then - 1 else 1 :: int);
          S1 = (if S \<noteq> [] \<and> (hd S = CHR ''+'' \<or> hd S = CHR ''-'') then tl S else S);
          hex = (2 \<le> length S1 \<and> (take 2 S1 = ''0x'' \<or> take 2 S1 = ''0X''));
          R = (if hex then 16 else 10);
          S2 = (if hex then drop 2 S1 else S1);
          Z = takeWhile (is_digit R) S2
      in if Z = [] then None else Some (sign * int (numeral_value R Z)))"

text \<open>The callbacks \<^verbatim>\<open>t => t.id === id\<close>: strict equality with \<^verbatim>\<open>NaN\<close> is false.\<close>

definition same_id :: "int option \<Rightarrow> task \<Rightarrow> bool" where
  "same_id i t = (case i of None \<Rightarrow> False | Some n \<Rightarrow> id_t t = n)"

text \<open>\<^verbatim>\<open>Array.prototype.findIndex\<close>: the first index whose element passes, \<open>None\<close> for
  the result \<open>-1\<close>. \<^verbatim>\<open>Array.prototype.find\<close> is \<^const>\<open>List.find\<close>.\<close>

fun findIndex :: "('a \<Rightarrow> bool) \<Rightarrow> 'a list \<Rightarrow> nat option" where
  "findIndex P [] = None"
| "findIndex P (x # xs) = (if P x then Some 0 else map_option Suc (findIndex P xs))"

subsection \<open>The handlers\<close>

text \<open>\<^verbatim>\<open>app.post('/api/tasks')\<close>, lines 150 to 175.\<close>

definition create_task :: "string \<Rightarrow> body \<Rightarrow> state \<Rightarrow> response \<times> state" where
  "create_task now b s =
     (case b ''title'' of
        None \<Rightarrow>
          (\<lparr> status = 400, success = False, message = Some msg_required,
             data = None, total = None \<rparr>, s)
      | Some ttl \<Rightarrow>
          if \<not> truthy ttl then
            (\<lparr> status = 400, success = False, message = Some msg_required,
               data = None, total = None \<rparr>, s)
          else
            let newTask = \<lparr> id_t = nextId s, title = ttl,
                            description = js_or (b ''description'') (JStr []),
                            completed = js_or (b ''completed'') (JBool False),
                            createdAt = now, updatedAt = None \<rparr>
            in (\<lparr> status = 201, success = True,
                   message = Some ''Tarefa criada com sucesso'',
                   data = Some (Single newTask), total = None \<rparr>,
                s\<lparr> tasks := tasks s @ [newTask], nextId := nextId s + 1 \<rparr>))"

text \<open>\<^verbatim>\<open>app.get('/api/tasks')\<close>, lines 178 to 184.\<close>

definition list_tasks :: "state \<Rightarrow> response \<times> state" where
  "list_tasks s =
     (\<lparr> status = 200, success = True, message = None,
        data = Some (Collection (tasks s)), total = Some (length (tasks s)) \<rparr>, s)"

text \<open>\<^verbatim>\<open>app.get('/api/tasks/:id')\<close>, lines 187 to 202; \<open>seg\<close> is \<^verbatim>\<open>req.params.id\<close>.\<close>

definition get_task :: "string \<Rightarrow> state \<Rightarrow> response \<times> state" where
  "get_task seg s =
     (let i = parseInt seg in
      case find (same_id i) (tasks s) of
        None \<Rightarrow> (not_found, s)
      | Some t \<Rightarrow>
          (\<lparr> status = 200, success = True, message = None,
             data = Some (Single t), total = None \<rparr>, s))"

text \<open>\<^verbatim>\<open>app.put('/api/tasks/:id')\<close>, lines 205 to 231. The object literal spreads the
  stored task, then each body field that is not \<^verbatim>\<open>undefined\<close>, then \<^verbatim>\<open>updatedAt\<close>.\<close>

definition update_task :: "string \<Rightarrow> string \<Rightarrow> body \<Rightarrow> state \<Rightarrow> response \<times> state" where
  "update_task now seg b s =
     (let i = parseInt seg in
      case findIndex (same_id i) (tasks s) of
        None \<Rightarrow> (not_found, s)
      | Some taskIndex \<Rightarrow>
          let old = tasks s ! taskIndex;
              new = old\<lparr> title := (case b ''title'' of None \<Rightarrow> title old | Some v \<Rightarrow> v),
                         description :=
                           (case b ''description'' of None \<Rightarrow> description old | Some v \<Rightarrow> v),
                         completed :=
                           (case b ''completed'' of None \<Rightarrow> completed old | Some v \<Rightarrow> v),
                         updatedAt := Some now \<rparr>
          in (\<lparr> status = 200, success = True,
                 message = Some ''Tarefa atualizada com sucesso'',
                 data = Some (Single new), total = None \<rparr>,
              s\<lparr> tasks := (tasks s)[taskIndex := new] \<rparr>))"

text \<open>\<^verbatim>\<open>app.delete('/api/tasks/:id')\<close>, lines 234 to 252; \<^verbatim>\<open>splice(taskIndex, 1)\<close> cuts
  one element out and returns it.\<close>

definition delete_task :: "string \<Rightarrow> state \<Rightarrow> response \<times> state" where
  "delete_task seg s =
     (let i = parseInt seg in
      case findIndex (same_id i) (tasks s) of
        None \<Rightarrow> (not_found, s)
      | Some taskIndex \<Rightarrow>
          let deletedTask = tasks s ! taskIndex
          in (\<lparr> status = 200, success = True,
                 message = Some ''Tarefa deletada com sucesso'',
                 data = Some (Single deletedTask), total = None \<rparr>,
              s\<lparr> tasks := take taskIndex (tasks s) @ drop (Suc taskIndex) (tasks s) \<rparr>))"

subsection \<open>Requests and reachable states\<close>

datatype request =
    ListTasks
  | GetTask string
  | CreateTask string body
  | UpdateTask string string body
  | DeleteTask string

fun step :: "request \<Rightarrow> state \<Rightarrow> response \<times> state" where
  "step ListTasks s = list_tasks s"
| "step (GetTask seg) s = get_task seg s"
| "step (CreateTask now b) s = create_task now b s"
| "step (UpdateTask now seg b) s = update_task now seg b s"
| "step (DeleteTask seg) s = delete_task seg s"

inductive reachable :: "state \<Rightarrow> bool" where
  start: "reachable (init boot)"
| after: "reachable s \<Longrightarrow> reachable (snd (step r s))"

text \<open>The server handles requests one after the other, each on the state the one before
  left.\<close>

fun run :: "request list \<Rightarrow> state \<Rightarrow> state" where
  "run [] s = s"
| "run (r # rs) s = run rs (snd (step r s))"

text \<open>How a client writes a task id into the path: the decimal numeral, as
  \<^verbatim>\<open>Number.prototype.toString\<close> gives it for an integer.\<close>

fun decimal :: "nat \<Rightarrow> string" where
  "decimal n =
     (if n < 10 then [char_of (48 + n)] else decimal (n div 10) @ [char_of (48 + n mod 10)])"

declare decimal.simps [simp del]

definition toString :: "int \<Rightarrow> string" where
  "toString i = (if i < 0 then CHR ''-'' # decimal (nat (- i)) else decimal (nat i))"

section \<open>Array search\<close>

lemma findIndex_None_iff: "findIndex P xs = None \<longleftrightarrow> (\<forall>x\<in>set xs. \<not> P x)"
  by (induction xs) auto

lemma findIndex_Some:
  "findIndex P xs = Some k \<Longrightarrow> k < length xs \<and> P (xs ! k) \<and> (\<forall>j<k. \<not> P (xs ! j))"
proof (induction xs arbitrary: k)
  case Nil
  then show ?case by simp
next
  case (Cons x xs)
  show ?case
  proof (cases "P x")
    case True
    with Cons.prems show ?thesis by simp
  next
    case False
    with Cons.prems obtain k' where k': "findIndex P xs = Some k'" "k = Suc k'"
      by auto
    from Cons.IH[OF k'(1)] False k'(2) show ?thesis
      by (auto simp: nth_Cons split: nat.splits)
  qed
qed

lemma find_findIndex: "find P xs = map_option (\<lambda>k. xs ! k) (findIndex P xs)"
  by (induction xs) (auto simp: option.map_comp comp_def)

lemma same_id_iff: "same_id i t \<longleftrightarrow> i = Some (id_t t)"
  by (auto simp: same_id_def split: option.splits)

text \<open>The index that \<^verbatim>\<open>findIndex\<close> yields for a path segment naming a stored id is the
  first position holding that id.\<close>

lemma target_index:
  assumes "t \<in> set (tasks s)" and "parseInt seg = Some (id_t t)"
  obtains k where "findIndex (same_id (parseInt seg)) (tasks s) = Some k"
    and "k < length (tasks s)" and "id_t (tasks s ! k) = id_t t"
    and "\<forall>j<k. id_t (tasks s ! j) \<noteq> id_t t"
proof -
  from assms have "findIndex (same_id (parseInt seg)) (tasks s) \<noteq> None"
    by (auto simp: findIndex_None_iff same_id_iff)
  then obtain k where k: "findIndex (same_id (parseInt seg)) (tasks s) = Some k" by auto
  from findIndex_Some[OF k] assms(2)
  have "k < length (tasks s)" "id_t (tasks s ! k) = id_t t" "\<forall>j<k. id_t (tasks s ! j) \<noteq> id_t t"
    by (auto simp: same_id_iff)
  with k that show ?thesis by blast
qed

lemma findIndex_first:
  assumes "k < length xs" and "P (xs ! k)" and "\<forall>j<k. \<not> P (xs ! j)"
  shows "findIndex P xs = Some k"
proof -
  from assms(1,2) have "findIndex P xs \<noteq> None"
    by (auto simp: findIndex_None_iff)
  then obtain k' where k': "findIndex P xs = Some k'" by auto
  from findIndex_Some[OF k'] have "P (xs ! k')" and "\<forall>j<k'. \<not> P (xs ! j)"
    by simp_all
  with assms(2,3) have "k' = k"
    by (meson linorder_neqE_nat)
  with k' show ?thesis by simp
qed

text \<open>The task an update or a delete works on is the one at the position \<open>k\<close> that
  \<^verbatim>\<open>findIndex\<close> returns: the segment parses to the id of the task at \<open>k\<close>, and no task
  before \<open>k\<close> has that id. By \<open>target_index\<close> every segment that names a stored id has
  such a position, so the three conditions describe every update and delete that finds its
  task.\<close>

lemma target_at:
  assumes "k < length (tasks s)" and "parseInt seg = Some (id_t (tasks s ! k))"
    and "\<forall>j<k. id_t (tasks s ! j) \<noteq> id_t (tasks s ! k)"
  shows "findIndex (same_id (parseInt seg)) (tasks s) = Some k"
  using assms by (intro findIndex_first) (auto simp: same_id_iff)

lemma no_target_index:
  assumes "\<forall>t\<in>set (tasks s). parseInt seg \<noteq> Some (id_t t)"
  shows "findIndex (same_id (parseInt seg)) (tasks s) = None"
  using assms by (simp add: findIndex_None_iff same_id_iff)

lemma subseq_cut: "subseq (take k xs @ drop (Suc k) xs) xs"
proof (induction xs arbitrary: k)
  case Nil
  show ?case by simp
next
  case (Cons x xs)
  show ?case
  proof (cases k)
    case 0
    have "subseq xs (x # xs)" by (rule list_emb_Cons) simp
    with 0 show ?thesis by simp
  next
    case (Suc m)
    with Cons.IH[of m] show ?thesis by simp
  qed
qed

lemma cut_rebuild:
  assumes "k < length xs"
  shows "xs = take k (take k xs @ drop (Suc k) xs) @ xs ! k # drop k (take k xs @ drop (Suc k) xs)"
  using assms by (simp add: id_take_nth_drop[symmetric] min_def)

section \<open>Path segments\<close>

lemmas parseInt_eval = parseInt_def is_ws_def is_digit_def digit_val_def numeral_value_def

lemma parseInt_1: "parseInt ''1'' = Some 1"
  by (simp add: parseInt_eval)

lemma parseInt_2: "parseInt ''2'' = Some 2"
  by (simp add: parseInt_eval)

lemma parseInt_9999: "parseInt ''9999'' = Some 9999"
  by (simp add: parseInt_eval)

text \<open>A segment whose first character is neither white space, nor a sign, nor a decimal
  digit has no numeral to read.\<close>

lemma parseInt_no_numeral:
  assumes "seg = [] \<or> (\<not> is_ws (hd seg) \<and> hd seg \<noteq> CHR ''+'' \<and> hd seg \<noteq> CHR ''-''
             \<and> \<not> is_digit 10 (hd seg))"
  shows "parseInt seg = None"
proof (cases seg)
  case Nil
  then show ?thesis by (simp add: parseInt_def)
next
  case (Cons c cs)
  with assms have c: "\<not> is_ws c" "c \<noteq> CHR ''+''" "c \<noteq> CHR ''-''" "\<not> is_digit 10 c"
    by simp_all
  from c(4) have "c \<noteq> CHR ''0''"
    by (auto simp: is_digit_def digit_val_def)
  with c Cons show ?thesis
    by (simp add: parseInt_def)
qed

section \<open>Create\<close>

text \<open>
  C1. A create request whose body carries a truthy \<^verbatim>\<open>title\<close> is answered with status 201
  and the created record. The record takes the current value of \<^verbatim>\<open>nextId\<close> as its id
  and the counter goes up by one; \<^verbatim>\<open>createdAt\<close> is the clock reading; an absent
  \<^verbatim>\<open>description\<close> becomes the empty string and an absent \<^verbatim>\<open>completed\<close> becomes
  \<^verbatim>\<open>false\<close>; the record has no \<^verbatim>\<open>updatedAt\<close>; it is appended at the end of the
  collection. The counter starts at 2, the seeded task having id 1.
\<close>

theorem create_task_accepts:
  assumes "b ''title'' = Some ttl" and "truthy ttl"
  shows "nextId (init boot) = 2 \<and> map id_t (tasks (init boot)) = [1] \<and>
         (\<exists>t. create_task now b s =
           (\<lparr> status = 201, success = True, message = Some ''Tarefa criada com sucesso'',
              data = Some (Single t), total = None \<rparr>,
            \<lparr> tasks = tasks s @ [t], nextId = nextId s + 1 \<rparr>)
         \<and> id_t t = nextId s \<and> title t = ttl \<and> createdAt t = now \<and> updatedAt t = None
         \<and> (b ''description'' = None \<longrightarrow> description t = JStr [])
         \<and> (b ''completed'' = None \<longrightarrow> completed t = JBool False))"
  using assms by (simp add: create_task_def init_def Let_def)

theorem create_task_accepts_witness:
  "\<exists>t. create_task ''2024-05-01T10:00:00.000Z'' [''title'' \<mapsto> JStr ''Buy milk'']
           \<lparr> tasks = [], nextId = 7 \<rparr> =
         (\<lparr> status = 201, success = True, message = Some ''Tarefa criada com sucesso'',
            data = Some (Single t), total = None \<rparr>,
          \<lparr> tasks = [t], nextId = 8 \<rparr>)
       \<and> id_t t = 7 \<and> title t = JStr ''Buy milk''
       \<and> createdAt t = ''2024-05-01T10:00:00.000Z'' \<and> updatedAt t = None
       \<and> description t = JStr [] \<and> completed t = JBool False"
proof -
  let ?b = "[''title'' \<mapsto> JStr ''Buy milk'']"
  have h1: "?b ''title'' = Some (JStr ''Buy milk'')" by simp
  have h2: "truthy (JStr ''Buy milk'')" by simp
  have h3: "?b ''description'' = None" "?b ''completed'' = None" by simp_all
  show ?thesis
    using create_task_accepts[where b = ?b and ttl = "JStr ''Buy milk''"
        and now = "''2024-05-01T10:00:00.000Z''"
        and s = "\<lparr> tasks = [], nextId = 7 \<rparr>" and boot = "[]", OF h1 h2] h3
    by simp
qed

text \<open>
  C2. A create request whose \<^verbatim>\<open>title\<close> is missing or falsy is answered with status 400
  and the envelope \<^verbatim>\<open>{success: false, message}\<close>, and the state stays as it was: the same
  collection and the same counter.
\<close>

theorem create_task_rejects:
  assumes "b ''title'' = None \<or> (\<exists>v. b ''title'' = Some v \<and> \<not> truthy v)"
  shows "create_task now b s =
           (\<lparr> status = 400, success = False, message = Some msg_required,
              data = None, total = None \<rparr>, s)"
  using assms by (auto simp: create_task_def)

theorem create_task_rejects_witness:
  "create_task ''2024-05-01T10:00:00.000Z'' [''title'' \<mapsto> JStr []]
       (init ''2024-01-01T00:00:00.000Z'') =
     (\<lparr> status = 400, success = False, message = Some msg_required,
        data = None, total = None \<rparr>,
      init ''2024-01-01T00:00:00.000Z'')
   \<and> create_task ''2024-05-01T10:00:00.000Z'' Map.empty (init ''2024-01-01T00:00:00.000Z'') =
     (\<lparr> status = 400, success = False, message = Some msg_required,
        data = None, total = None \<rparr>,
      init ''2024-01-01T00:00:00.000Z'')"
proof -
  have h1: "[''title'' \<mapsto> JStr []] ''title'' = None
        \<or> (\<exists>v. [''title'' \<mapsto> JStr []] ''title'' = Some v \<and> \<not> truthy v)" by simp
  have h2: "(Map.empty :: body) ''title'' = None
        \<or> (\<exists>v. (Map.empty :: body) ''title'' = Some v \<and> \<not> truthy v)" by simp
  show ?thesis
    using create_task_rejects[where b = "[''title'' \<mapsto> JStr []]", OF h1]
      create_task_rejects[where b = "Map.empty", OF h2] by simp
qed

section \<open>Get by id\<close>

text \<open>
  C3, as the code has it. The path segment goes through \<^verbatim>\<open>parseInt\<close>. The request is
  answered with status 200 and a stored record whose id is the parsed number exactly when
  some task has that id, and with status 404 and \<^verbatim>\<open>{success: false, message}\<close> otherwise.
  A segment in which \<^verbatim>\<open>parseInt\<close> finds no numeral, such as the empty one or \<^verbatim>\<open>abc\<close>, is
  answered with 404 and never with a validation error. A segment that starts with a
  numeral is looked up by that numeral, whatever follows it: \<^verbatim>\<open>1abc\<close> names task 1.
\<close>

theorem get_task_by_parsed_id:
  "(if \<exists>t\<in>set (tasks s). parseInt seg = Some (id_t t)
    then \<exists>t\<in>set (tasks s). parseInt seg = Some (id_t t) \<and>
           get_task seg s =
             (\<lparr> status = 200, success = True, message = None,
                data = Some (Single t), total = None \<rparr>, s)
    else get_task seg s = (not_found, s))
   \<and> (parseInt seg = None \<longrightarrow> get_task seg s = (not_found, s))
   \<and> (seg = [] \<or> (\<not> is_ws (hd seg) \<and> hd seg \<noteq> CHR ''+'' \<and> hd seg \<noteq> CHR ''-''
          \<and> \<not> is_digit 10 (hd seg)) \<longrightarrow> get_task seg s = (not_found, s))
   \<and> parseInt ''abc'' = None \<and> parseInt ''1abc'' = Some 1
   \<and> status not_found = 404 \<and> \<not> success not_found \<and> message not_found = Some msg_not_found"
proof -
  have hit: "\<exists>t\<in>set (tasks s). parseInt seg = Some (id_t t) \<and>
           get_task seg s =
             (\<lparr> status = 200, success = True, message = None,
                data = Some (Single t), total = None \<rparr>, s)"
    if "\<exists>t\<in>set (tasks s). parseInt seg = Some (id_t t)"
  proof -
    from that obtain t where "t \<in> set (tasks s)" "parseInt seg = Some (id_t t)"
      by auto
    then obtain k where k: "findIndex (same_id (parseInt seg)) (tasks s) = Some k"
      "k < length (tasks s)" "id_t (tasks s ! k) = id_t t"
      by (rule target_index)
    have "get_task seg s =
             (\<lparr> status = 200, success = True, message = None,
                data = Some (Single (tasks s ! k)), total = None \<rparr>, s)"
      by (simp add: get_task_def find_findIndex k(1))
    moreover have "tasks s ! k \<in> set (tasks s)"
      using k(2) by simp
    moreover have "parseInt seg = Some (id_t (tasks s ! k))"
      using k(3) \<open>parseInt seg = Some (id_t t)\<close> by simp
    ultimately show ?thesis by (intro bexI[of _ "tasks s ! k"]) simp_all
  qed
  have miss: "get_task seg s = (not_found, s)"
    if "\<not> (\<exists>t\<in>set (tasks s). parseInt seg = Some (id_t t))"
  proof -
    from that have "findIndex (same_id (parseInt seg)) (tasks s) = None"
      by (simp add: findIndex_None_iff same_id_iff)
    then show ?thesis by (simp add: get_task_def find_findIndex)
  qed
  have nan: "get_task seg s = (not_found, s)" if "parseInt seg = None"
    using miss that by simp
  have shape: "get_task seg s = (not_found, s)"
    if "seg = [] \<or> (\<not> is_ws (hd seg) \<and> hd seg \<noteq> CHR ''+'' \<and> hd seg \<noteq> CHR ''-''
          \<and> \<not> is_digit 10 (hd seg))"
    using nan parseInt_no_numeral[OF that] by simp
  have ex: "parseInt ''abc'' = None" "parseInt ''1abc'' = Some 1"
    by (simp_all add: parseInt_eval)
  have nf: "status not_found = 404 \<and> \<not> success not_found \<and> message not_found = Some msg_not_found"
    by (simp add: not_found_def)
  have cases: "if \<exists>t\<in>set (tasks s). parseInt seg = Some (id_t t)
    then \<exists>t\<in>set (tasks s). parseInt seg = Some (id_t t) \<and>
           get_task seg s =
             (\<lparr> status = 200, success = True, message = None,
                data = Some (Single t), total = None \<rparr>, s)
    else get_task seg s = (not_found, s)"
  proof (cases "\<exists>t\<in>set (tasks s). parseInt seg = Some (id_t t)")
    case True
    from hit[OF True] True show ?thesis by (simp only: if_True)
  next
    case False
    from miss[OF False] False show ?thesis by (simp only: if_False)
  qed
  from cases nan shape ex nf show ?thesis by (intro conjI impI) simp_all
qed

theorem get_task_by_parsed_id_witness:
  "get_task ''abc'' (init ''2024-01-01T00:00:00.000Z'') =
     (not_found, init ''2024-01-01T00:00:00.000Z'')
   \<and> get_task ''1'' (init ''2024-01-01T00:00:00.000Z'') =
     (\<lparr> status = 200, success = True, message = None,
        data = Some (Single \<lparr> id_t = 1, title = JStr ''Tarefa Exemplo'',
                 description = JStr ''Primeira tarefa'', completed = JBool False,
                 createdAt = ''2024-01-01T00:00:00.000Z'', updatedAt = None \<rparr>),
        total = None \<rparr>, init ''2024-01-01T00:00:00.000Z'')"
proof -
  let ?s = "init ''2024-01-01T00:00:00.000Z''"
  have a: "get_task ''abc'' ?s = (not_found, ?s)"
    using get_task_by_parsed_id[where s = ?s and seg = "''abc''"] by simp
  have h: "\<exists>t\<in>set (tasks ?s). parseInt ''1'' = Some (id_t t)"
    by (simp add: init_def parseInt_1)
  have "\<exists>t\<in>set (tasks ?s). parseInt ''1'' = Some (id_t t) \<and>
           get_task ''1'' ?s =
             (\<lparr> status = 200, success = True, message = None,
                data = Some (Single t), total = None \<rparr>, ?s)"
    using get_task_by_parsed_id[where s = ?s and seg = "''1''"] h by (simp only: if_True)
  then have b: "get_task ''1'' ?s =
     (\<lparr> status = 200, success = True, message = None,
        data = Some (Single \<lparr> id_t = 1, title = JStr ''Tarefa Exemplo'',
                 description = JStr ''Primeira tarefa'', completed = JBool False,
                 createdAt = ''2024-01-01T00:00:00.000Z'', updatedAt = None \<rparr>),
        total = None \<rparr>, ?s)"
    by (simp add: init_def)
  from a b show ?thesis by (rule conjI)
qed

text \<open>
  C3 as the specification states it fails: the segment \<^verbatim>\<open>1abc\<close> is not answered with
  404. On the initial state it is answered with status 200 and the seeded task.
\<close>

theorem get_task_1abc_is_found:
  "fst (get_task ''1abc'' (init ''2024-01-01T00:00:00.000Z'')) =
     \<lparr> status = 200, success = True, message = None,
       data = Some (Single \<lparr> id_t = 1, title = JStr ''Tarefa Exemplo'',
                 description = JStr ''Primeira tarefa'', completed = JBool False,
                 createdAt = ''2024-01-01T00:00:00.000Z'', updatedAt = None \<rparr>),
       total = None \<rparr>
   \<and> fst (get_task ''1abc'' (init ''2024-01-01T00:00:00.000Z'')) \<noteq> not_found"
  by (simp add: get_task_def init_def parseInt_eval same_id_def not_found_def)

section \<open>Update\<close>

text \<open>
  C4. A successful update overwrites exactly those of \<^verbatim>\<open>title\<close>, \<^verbatim>\<open>description\<close> and
  \<^verbatim>\<open>completed\<close> that the body defines, with the body's value whatever it is, falsy values
  included; a field the body leaves undefined keeps its stored value. \<^verbatim>\<open>updatedAt\<close> is set
  to the clock reading, and the response carries the record as it is stored after the
  update.
\<close>

theorem update_task_merges_defined_fields:
  assumes "k < length (tasks s)" and "parseInt seg = Some (id_t (tasks s ! k))"
    and "\<forall>j<k. id_t (tasks s ! j) \<noteq> id_t (tasks s ! k)"
  shows "let old = tasks s ! k; new = tasks (snd (update_task now seg b s)) ! k in
           fst (update_task now seg b s) =
             \<lparr> status = 200, success = True,
               message = Some ''Tarefa atualizada com sucesso'',
               data = Some (Single new), total = None \<rparr> \<and>
           (\<forall>v. b ''title'' = Some v \<longrightarrow> title new = v) \<and>
           (\<forall>v. b ''description'' = Some v \<longrightarrow> description new = v) \<and>
           (\<forall>v. b ''completed'' = Some v \<longrightarrow> completed new = v) \<and>
           (b ''title'' = None \<longrightarrow> title new = title old) \<and>
           (b ''description'' = None \<longrightarrow> description new = description old) \<and>
           (b ''completed'' = None \<longrightarrow> completed new = completed old) \<and>
           updatedAt new = Some now"
  using assms(1) by (simp add: update_task_def Let_def target_at[OF assms])

theorem update_task_merges_defined_fields_witness:
  "fst (update_task ''2024-05-02T08:30:00.000Z'' ''1''
          [''description'' \<mapsto> JStr [], ''completed'' \<mapsto> JBool False]
          (init ''2024-01-01T00:00:00.000Z'')) =
     \<lparr> status = 200, success = True, message = Some ''Tarefa atualizada com sucesso'',
       data = Some (Single (tasks (snd (update_task ''2024-05-02T08:30:00.000Z'' ''1''
          [''description'' \<mapsto> JStr [], ''completed'' \<mapsto> JBool False]
          (init ''2024-01-01T00:00:00.000Z''))) ! 0)), total = None \<rparr>
   \<and> title (tasks (snd (update_task ''2024-05-02T08:30:00.000Z'' ''1''
          [''description'' \<mapsto> JStr [], ''completed'' \<mapsto> JBool False]
          (init ''2024-01-01T00:00:00.000Z''))) ! 0) = JStr ''Tarefa Exemplo''
   \<and> description (tasks (snd (update_task ''2024-05-02T08:30:00.000Z'' ''1''
          [''description'' \<mapsto> JStr [], ''completed'' \<mapsto> JBool False]
          (init ''2024-01-01T00:00:00.000Z''))) ! 0) = JStr []
   \<and> completed (tasks (snd (update_task ''2024-05-02T08:30:00.000Z'' ''1''
          [''description'' \<mapsto> JStr [], ''completed'' \<mapsto> JBool False]
          (init ''2024-01-01T00:00:00.000Z''))) ! 0) = JBool False
   \<and> updatedAt (tasks (snd (update_task ''2024-05-02T08:30:00.000Z'' ''1''
          [''description'' \<mapsto> JStr [], ''completed'' \<mapsto> JBool False]
          (init ''2024-01-01T00:00:00.000Z''))) ! 0) = Some ''2024-05-02T08:30:00.000Z''"
proof -
  let ?s = "init ''2024-01-01T00:00:00.000Z''"
  let ?b = "[''description'' \<mapsto> JStr [], ''completed'' \<mapsto> JBool False]"
  have h1: "0 < length (tasks ?s)" by (simp add: init_def)
  have h2: "parseInt ''1'' = Some (id_t (tasks ?s ! 0))" by (simp add: init_def parseInt_1)
  have h3: "\<forall>j<0. id_t (tasks ?s ! j) \<noteq> id_t (tasks ?s ! 0)" by simp
  have b: "?b ''title'' = None" "?b ''description'' = Some (JStr [])"
    "?b ''completed'' = Some (JBool False)" by simp_all
  have old: "title (tasks ?s ! 0) = JStr ''Tarefa Exemplo''" by (simp add: init_def)
  show ?thesis
    using update_task_merges_defined_fields[where s = ?s and k = 0 and seg = "''1''"
        and b = ?b and now = "''2024-05-02T08:30:00.000Z''", OF h1 h2 h3]
    unfolding Let_def b old by simp
qed

text \<open>
  C5. A successful update leaves the task's \<^verbatim>\<open>id\<close> and \<^verbatim>\<open>createdAt\<close> as they were, and so
  every field among \<^verbatim>\<open>title\<close>, \<^verbatim>\<open>description\<close>, \<^verbatim>\<open>completed\<close> that the body leaves
  undefined. Every other task is unchanged, and so are the length and the order of the
  collection and the counter.
\<close>

theorem update_task_frame:
  assumes "k < length (tasks s)" and "parseInt seg = Some (id_t (tasks s ! k))"
    and "\<forall>j<k. id_t (tasks s ! j) \<noteq> id_t (tasks s ! k)"
  shows "let old = tasks s ! k; s' = snd (update_task now seg b s); new = tasks s' ! k in
           id_t new = id_t old \<and> createdAt new = createdAt old \<and>
           (b ''title'' = None \<longrightarrow> title new = title old) \<and>
           (b ''description'' = None \<longrightarrow> description new = description old) \<and>
           (b ''completed'' = None \<longrightarrow> completed new = completed old) \<and>
           (\<forall>j<length (tasks s). j \<noteq> k \<longrightarrow> tasks s' ! j = tasks s ! j) \<and>
           length (tasks s') = length (tasks s) \<and>
           map id_t (tasks s') = map id_t (tasks s) \<and>
           nextId s' = nextId s"
  using assms(1)
  by (simp add: update_task_def Let_def target_at[OF assms] map_update list_update_same_conv)

theorem update_task_frame_witness:
  "snd (update_task ''2024-05-02T08:30:00.000Z'' ''2'' [''completed'' \<mapsto> JBool True]
     \<lparr> tasks = [\<lparr> id_t = 1, title = JStr ''Tarefa Exemplo'',
                  description = JStr ''Primeira tarefa'', completed = JBool False,
                  createdAt = ''2024-01-01T00:00:00.000Z'', updatedAt = None \<rparr>,
                \<lparr> id_t = 2, title = JStr ''Buy milk'', description = JStr [],
                  completed = JBool False,
                  createdAt = ''2024-05-01T10:00:00.000Z'', updatedAt = None \<rparr>],
       nextId = 3 \<rparr>) =
     \<lparr> tasks = [\<lparr> id_t = 1, title = JStr ''Tarefa Exemplo'',
                  description = JStr ''Primeira tarefa'', completed = JBool False,
                  createdAt = ''2024-01-01T00:00:00.000Z'', updatedAt = None \<rparr>,
                \<lparr> id_t = 2, title = JStr ''Buy milk'', description = JStr [],
                  completed = JBool True,
                  createdAt = ''2024-05-01T10:00:00.000Z'',
                  updatedAt = Some ''2024-05-02T08:30:00.000Z'' \<rparr>],
       nextId = 3 \<rparr>"
proof -
  let ?t1 = "\<lparr> id_t = 1, title = JStr ''Tarefa Exemplo'',
                  description = JStr ''Primeira tarefa'', completed = JBool False,
                  createdAt = ''2024-01-01T00:00:00.000Z'', updatedAt = None \<rparr>"
  let ?t2 = "\<lparr> id_t = 2, title = JStr ''Buy milk'', description = JStr [],
                  completed = JBool False,
                  createdAt = ''2024-05-01T10:00:00.000Z'', updatedAt = None \<rparr>"
  let ?s = "\<lparr> tasks = [?t1, ?t2], nextId = 3 \<rparr>"
  let ?b = "[''completed'' \<mapsto> JBool True]"
  let ?s' = "snd (update_task ''2024-05-02T08:30:00.000Z'' ''2'' ?b ?s)"
  have h1: "1 < length (tasks ?s)" by simp
  have h2: "parseInt ''2'' = Some (id_t (tasks ?s ! 1))" by (simp add: parseInt_2)
  have h3: "\<forall>j<1. id_t (tasks ?s ! j) \<noteq> id_t (tasks ?s ! 1)" by simp
  have b: "?b ''title'' = None" "?b ''description'' = None" by simp_all
  from update_task_frame[where s = ?s and k = 1 and seg = "''2''" and b = ?b
      and now = "''2024-05-02T08:30:00.000Z''", OF h1 h2 h3]
  have frame: "id_t (tasks ?s' ! 1) = 2" "createdAt (tasks ?s' ! 1) = ''2024-05-01T10:00:00.000Z''"
    "title (tasks ?s' ! 1) = JStr ''Buy milk''" "description (tasks ?s' ! 1) = JStr []"
    "tasks ?s' ! 0 = ?t1" "length (tasks ?s') = 2" "nextId ?s' = 3"
    unfolding Let_def b by simp_all
  have changed: "completed (tasks ?s' ! 1) = JBool True"
    "updatedAt (tasks ?s' ! 1) = Some ''2024-05-02T08:30:00.000Z''"
    by (simp_all add: update_task_def parseInt_2 same_id_def Let_def)
  from frame(6) obtain x y where xy: "tasks ?s' = [x, y]"
    by (auto simp: length_Suc_conv numeral_2_eq_2)
  with frame changed have "x = ?t1" "y = \<lparr> id_t = 2, title = JStr ''Buy milk'',
      description = JStr [], completed = JBool True,
      createdAt = ''2024-05-01T10:00:00.000Z'',
      updatedAt = Some ''2024-05-02T08:30:00.000Z'' \<rparr>"
    by (simp_all add: task.equality)
  with xy frame(7) show ?thesis
    by (simp add: state.equality)
qed

section \<open>Unknown ids\<close>

text \<open>
  C6. An update or a delete whose id matches no task is answered with status 404 and
  \<^verbatim>\<open>{success: false, message}\<close>, and the state stays as it was: the same collection,
  field for field and in the same order, and the same counter.
\<close>

theorem unknown_id_not_found:
  assumes "\<forall>t\<in>set (tasks s). parseInt seg \<noteq> Some (id_t t)"
  shows "update_task now seg b s = (not_found, s) \<and> delete_task seg s = (not_found, s)
         \<and> status not_found = 404 \<and> \<not> success not_found
         \<and> message not_found = Some msg_not_found"
proof -
  have n: "findIndex (same_id (parseInt seg)) (tasks s) = None"
    using assms by (rule no_target_index)
  have "update_task now seg b s = (not_found, s)"
    by (simp add: update_task_def n)
  moreover have "delete_task seg s = (not_found, s)"
    by (simp add: delete_task_def n)
  moreover have "status not_found = 404 \<and> \<not> success not_found
         \<and> message not_found = Some msg_not_found"
    by (simp add: not_found_def)
  ultimately show ?thesis by simp
qed

theorem unknown_id_not_found_witness:
  "update_task ''2024-05-02T08:30:00.000Z'' ''9999'' [''completed'' \<mapsto> JBool True]
       (init ''2024-01-01T00:00:00.000Z'') =
     (not_found, init ''2024-01-01T00:00:00.000Z'')
   \<and> delete_task ''9999'' (init ''2024-01-01T00:00:00.000Z'') =
     (not_found, init ''2024-01-01T00:00:00.000Z'')"
proof -
  let ?s = "init ''2024-01-01T00:00:00.000Z''"
  have h: "\<forall>t\<in>set (tasks ?s). parseInt ''9999'' \<noteq> Some (id_t t)"
    by (simp add: init_def parseInt_9999)
  show ?thesis
    using unknown_id_not_found[where s = ?s and seg = "''9999''"
        and now = "''2024-05-02T08:30:00.000Z''" and b = "[''completed'' \<mapsto> JBool True]", OF h]
    by simp
qed

section \<open>Delete\<close>

text \<open>
  C7. A delete whose id matches a task is answered with status 200, \<^verbatim>\<open>success: true\<close> and
  the removed record. Exactly that task leaves the collection: what stays is what stood
  before it followed by what stood after it, in the same order, so the length, and the
  \<^verbatim>\<open>total\<close> of a list request made afterwards, is one less.
\<close>

theorem delete_task_removes:
  assumes "k < length (tasks s)" and "parseInt seg = Some (id_t (tasks s ! k))"
    and "\<forall>j<k. id_t (tasks s ! j) \<noteq> id_t (tasks s ! k)"
  shows "let s' = snd (delete_task seg s) in
           fst (delete_task seg s) =
             \<lparr> status = 200, success = True,
               message = Some ''Tarefa deletada com sucesso'',
               data = Some (Single (tasks s ! k)), total = None \<rparr> \<and>
           tasks s' = take k (tasks s) @ drop (Suc k) (tasks s) \<and>
           tasks s = take k (tasks s') @ tasks s ! k # drop k (tasks s') \<and>
           subseq (tasks s') (tasks s) \<and>
           Suc (length (tasks s')) = length (tasks s) \<and>
           total (fst (list_tasks s)) = Some (length (tasks s)) \<and>
           total (fst (list_tasks s')) = Some (length (tasks s) - 1) \<and>
           nextId s' = nextId s"
proof -
  let ?s' = "snd (delete_task seg s)"
  note k = target_at[OF assms]
  have st: "tasks ?s' = take k (tasks s) @ drop (Suc k) (tasks s)" "nextId ?s' = nextId s"
    using k by (simp_all add: delete_task_def)
  have r: "fst (delete_task seg s) =
             \<lparr> status = 200, success = True,
               message = Some ''Tarefa deletada com sucesso'',
               data = Some (Single (tasks s ! k)), total = None \<rparr>"
    using k by (simp add: delete_task_def)
  have rebuilt: "tasks s = take k (tasks ?s') @ tasks s ! k # drop k (tasks ?s')"
    unfolding st(1) using assms(1) by (rule cut_rebuild)
  have emb: "subseq (tasks ?s') (tasks s)"
    unfolding st(1) by (rule subseq_cut)
  have len: "Suc (length (tasks ?s')) = length (tasks s)"
    using assms(1) by (simp add: st(1))
  have tot: "total (fst (list_tasks s)) = Some (length (tasks s))"
    "total (fst (list_tasks ?s')) = Some (length (tasks s) - 1)"
    using len by (simp_all add: list_tasks_def)
  from r st(1) rebuilt emb len tot st(2) show ?thesis
    unfolding Let_def by (intro conjI)
qed

theorem delete_task_removes_witness:
  "delete_task ''2''
     \<lparr> tasks = [\<lparr> id_t = 1, title = JStr ''a'', description = JStr [], completed = JBool False,
                  createdAt = ''2024-01-01T00:00:00.000Z'', updatedAt = None \<rparr>,
                \<lparr> id_t = 2, title = JStr ''b'', description = JStr [], completed = JBool False,
                  createdAt = ''2024-01-02T00:00:00.000Z'', updatedAt = None \<rparr>,
                \<lparr> id_t = 3, title = JStr ''c'', description = JStr [], completed = JBool False,
                  createdAt = ''2024-01-03T00:00:00.000Z'', updatedAt = None \<rparr>],
       nextId = 4 \<rparr> =
     (\<lparr> status = 200, success = True, message = Some ''Tarefa deletada com sucesso'',
        data = Some (Single \<lparr> id_t = 2, title = JStr ''b'', description = JStr [],
                 completed = JBool False,
                 createdAt = ''2024-01-02T00:00:00.000Z'', updatedAt = None \<rparr>),
        total = None \<rparr>,
      \<lparr> tasks = [\<lparr> id_t = 1, title = JStr ''a'', description = JStr [], completed = JBool False,
                  createdAt = ''2024-01-01T00:00:00.000Z'', updatedAt = None \<rparr>,
                \<lparr> id_t = 3, title = JStr ''c'', description = JStr [], completed = JBool False,
                  createdAt = ''2024-01-03T00:00:00.000Z'', updatedAt = None \<rparr>],
       nextId = 4 \<rparr>)"
proof -
  let ?s = "\<lparr> tasks = [\<lparr> id_t = 1, title = JStr ''a'', description = JStr [], completed = JBool False,
                  createdAt = ''2024-01-01T00:00:00.000Z'', updatedAt = None \<rparr>,
                \<lparr> id_t = 2, title = JStr ''b'', description = JStr [], completed = JBool False,
                  createdAt = ''2024-01-02T00:00:00.000Z'', updatedAt = None \<rparr>,
                \<lparr> id_t = 3, title = JStr ''c'', description = JStr [], completed = JBool False,
                  createdAt = ''2024-01-03T00:00:00.000Z'', updatedAt = None \<rparr>],
       nextId = 4 \<rparr>"
  have h1: "1 < length (tasks ?s)" by simp
  have h2: "parseInt ''2'' = Some (id_t (tasks ?s ! 1))" by (simp add: parseInt_2)
  have h3: "\<forall>j<1. id_t (tasks ?s ! j) \<noteq> id_t (tasks ?s ! 1)" by simp
  from delete_task_removes[where s = ?s and k = 1 and seg = "''2''", OF h1 h2 h3]
  have "fst (delete_task ''2'' ?s) =
             \<lparr> status = 200, success = True,
               message = Some ''Tarefa deletada com sucesso'',
               data = Some (Single (tasks ?s ! 1)), total = None \<rparr>"
    and "tasks (snd (delete_task ''2'' ?s)) = take 1 (tasks ?s) @ drop (Suc 1) (tasks ?s)"
    and "nextId (snd (delete_task ''2'' ?s)) = nextId ?s"
    unfolding Let_def by simp_all
  then show ?thesis
    by (simp add: prod_eq_iff state.equality)
qed

section \<open>Update without validation\<close>

text \<open>
  C10. Update checks neither the type nor the value of a field it is given. A body that
  sets \<^verbatim>\<open>title\<close>, \<^verbatim>\<open>description\<close> or \<^verbatim>\<open>completed\<close> to \<^verbatim>\<open>null\<close> defines the field, so the
  stored field becomes \<^verbatim>\<open>null\<close>; the stored title can likewise become the empty string.
  No update is answered with status 400.
\<close>

theorem update_task_stores_null:
  "status (fst (update_task now seg b s)) \<noteq> 400 \<and>
   (k < length (tasks s) \<and> parseInt seg = Some (id_t (tasks s ! k)) \<and>
    (\<forall>j<k. id_t (tasks s ! j) \<noteq> id_t (tasks s ! k)) \<longrightarrow>
      (let new = tasks (snd (update_task now seg b s)) ! k in
         status (fst (update_task now seg b s)) = 200 \<and>
         (b ''title'' = Some JNull \<longrightarrow> title new = JNull \<and> \<not> truthy (title new)) \<and>
         (b ''title'' = Some (JStr []) \<longrightarrow> title new = JStr []) \<and>
         (b ''description'' = Some JNull \<longrightarrow> description new = JNull) \<and>
         (b ''completed'' = Some JNull \<longrightarrow> completed new = JNull)))"
proof -
  have never_400: "status (fst (update_task now seg b s)) \<noteq> 400"
    by (simp add: update_task_def not_found_def Let_def split: option.splits)
  have stored: "let new = tasks (snd (update_task now seg b s)) ! k in
         status (fst (update_task now seg b s)) = 200 \<and>
         (b ''title'' = Some JNull \<longrightarrow> title new = JNull \<and> \<not> truthy (title new)) \<and>
         (b ''title'' = Some (JStr []) \<longrightarrow> title new = JStr []) \<and>
         (b ''description'' = Some JNull \<longrightarrow> description new = JNull) \<and>
         (b ''completed'' = Some JNull \<longrightarrow> completed new = JNull)"
    if "k < length (tasks s)" and "parseInt seg = Some (id_t (tasks s ! k))"
      and "\<forall>j<k. id_t (tasks s ! j) \<noteq> id_t (tasks s ! k)"
    using that(1) by (simp add: update_task_def Let_def target_at[OF that])
  show ?thesis
  proof (intro conjI impI)
    show "status (fst (update_task now seg b s)) \<noteq> 400" by (rule never_400)
  next
    assume "k < length (tasks s) \<and> parseInt seg = Some (id_t (tasks s ! k)) \<and>
      (\<forall>j<k. id_t (tasks s ! j) \<noteq> id_t (tasks s ! k))"
    then show "let new = tasks (snd (update_task now seg b s)) ! k in
         status (fst (update_task now seg b s)) = 200 \<and>
         (b ''title'' = Some JNull \<longrightarrow> title new = JNull \<and> \<not> truthy (title new)) \<and>
         (b ''title'' = Some (JStr []) \<longrightarrow> title new = JStr []) \<and>
         (b ''description'' = Some JNull \<longrightarrow> description new = JNull) \<and>
         (b ''completed'' = Some JNull \<longrightarrow> completed new = JNull)"
      using stored by simp
  qed
qed

theorem update_task_stores_null_witness:
  "title (tasks (snd (update_task ''2024-05-02T08:30:00.000Z'' ''1'' [''title'' \<mapsto> JNull]
       (init ''2024-01-01T00:00:00.000Z''))) ! 0) = JNull
   \<and> status (fst (update_task ''2024-05-02T08:30:00.000Z'' ''1'' [''title'' \<mapsto> JNull]
       (init ''2024-01-01T00:00:00.000Z''))) = 200"
proof -
  let ?s = "init ''2024-01-01T00:00:00.000Z''"
  let ?b = "[''title'' \<mapsto> JNull]"
  have h1: "0 < length (tasks ?s)" by (simp add: init_def)
  have h2: "parseInt ''1'' = Some (id_t (tasks ?s ! 0))" by (simp add: init_def parseInt_1)
  have h3: "\<forall>j<0. id_t (tasks ?s ! j) \<noteq> id_t (tasks ?s ! 0)" by simp
  have b: "?b ''title'' = Some JNull" by simp
  show ?thesis
    using update_task_stores_null[where s = ?s and k = 0 and seg = "''1''" and b = ?b
        and now = "''2024-05-02T08:30:00.000Z''"] h1 h2 h3
    unfolding Let_def b by simp
qed

section \<open>Decimal numerals\<close>

text \<open>\<^verbatim>\<open>parseInt\<close> reads back the decimal numeral of every integer.\<close>

lemma decimal_not_empty: "decimal n \<noteq> []"
  by (subst decimal.simps) simp

lemma decimal_chars:
  "c \<in> set (decimal n) \<Longrightarrow> 48 \<le> (of_char c :: nat) \<and> (of_char c :: nat) \<le> 57"
proof (induction n rule: decimal.induct)
  case (1 n)
  show ?case
  proof (cases "n < 10")
    case True
    with "1.prems" have "c = char_of (48 + n)"
      by (subst (asm) decimal.simps) simp
    with True show ?thesis by simp
  next
    case False
    with "1.prems" have "c \<in> set (decimal (n div 10)) \<or> c = char_of (48 + n mod 10)"
      by (subst (asm) decimal.simps) auto
    then show ?thesis
    proof
      assume "c \<in> set (decimal (n div 10))"
      with "1.IH"[OF False] show ?thesis .
    next
      assume c: "c = char_of (48 + n mod 10)"
      have "n mod 10 < 10" by simp
      then have "(48 + n mod 10) mod 256 = 48 + n mod 10"
        by (intro mod_less) linarith
      with c \<open>n mod 10 < 10\<close> show ?thesis by simp
    qed
  qed
qed

lemma digit_val_decimal_char:
  assumes "d < 10"
  shows "digit_val (char_of (48 + d)) = Some d"
  using assms by (simp add: digit_val_def Let_def)

lemma numeral_value_snoc:
  "numeral_value R (Z @ [c]) =
     numeral_value R Z * R + (case digit_val c of None \<Rightarrow> 0 | Some d \<Rightarrow> d)"
  by (simp add: numeral_value_def)

lemma numeral_value_decimal: "numeral_value 10 (decimal n) = n"
proof (induction n rule: decimal.induct)
  case (1 n)
  show ?case
  proof (cases "n < 10")
    case True
    then have "decimal n = [char_of (48 + n)]"
      by (subst decimal.simps) simp
    with True show ?thesis
      by (simp add: numeral_value_def digit_val_decimal_char)
  next
    case False
    then have "decimal n = decimal (n div 10) @ [char_of (48 + n mod 10)]"
      by (subst decimal.simps) simp
    moreover have "digit_val (char_of (48 + n mod 10)) = Some (n mod 10)"
      by (rule digit_val_decimal_char) simp
    ultimately show ?thesis
      using "1.IH"[OF False] by (simp add: numeral_value_snoc)
  qed
qed

lemma decimal_char_props:
  assumes "48 \<le> (of_char c :: nat) \<and> (of_char c :: nat) \<le> 57"
  shows "\<not> is_ws c" and "c \<noteq> CHR ''+''" and "c \<noteq> CHR ''-''" and "c \<noteq> CHR ''x''"
    and "c \<noteq> CHR ''X''" and "is_digit 10 c"
  using assms by (auto simp: is_ws_def is_digit_def digit_val_def Let_def)

text \<open>\<^verbatim>\<open>parseInt\<close> on a string that is already past white space and sign.\<close>

lemma parseInt_bare:
  assumes "inp = pre @ D" and "dropWhile is_ws inp = inp"
    and "(if inp \<noteq> [] \<and> (hd inp = CHR ''+'' \<or> hd inp = CHR ''-'') then tl inp else inp) = D"
    and "D \<noteq> []" and "\<forall>c\<in>set D. 48 \<le> (of_char c :: nat) \<and> (of_char c :: nat) \<le> 57"
  shows "parseInt inp =
           Some ((if inp \<noteq> [] \<and> hd inp = CHR ''-'' then - 1 else 1) * int (numeral_value 10 D))"
proof -
  from assms(4) obtain c cs where D: "D = c # cs" by (cases D) auto
  have nohex: "(2 \<le> length D \<and> (take 2 D = ''0x'' \<or> take 2 D = ''0X'')) = False"
  proof (cases cs)
    case Nil
    with D show ?thesis by simp
  next
    case (Cons c' cs')
    with assms(5) D have "c' \<noteq> CHR ''x''" "c' \<noteq> CHR ''X''"
      by (simp_all add: decimal_char_props)
    with D Cons show ?thesis by simp
  qed
  have all: "takeWhile (is_digit 10) D = D"
    using assms(5) by (simp add: takeWhile_eq_all_conv decimal_char_props)
  show ?thesis
    unfolding parseInt_def Let_def assms(2) assms(3) nohex if_False all
    using assms(4) by (simp only: if_False)
qed

lemma parseInt_unsigned:
  assumes "D \<noteq> []" and "\<forall>c\<in>set D. 48 \<le> (of_char c :: nat) \<and> (of_char c :: nat) \<le> 57"
  shows "parseInt D = Some (int (numeral_value 10 D))"
proof -
  from assms(1) obtain c cs where D: "D = c # cs" by (cases D) auto
  from assms(2) D have c: "\<not> is_ws c" "c \<noteq> CHR ''+''" "c \<noteq> CHR ''-''"
    by (simp_all add: decimal_char_props)
  have "parseInt D =
           Some ((if D \<noteq> [] \<and> hd D = CHR ''-'' then - 1 else 1) * int (numeral_value 10 D))"
    using assms by (intro parseInt_bare[where pre = "[]"]) (simp_all add: D c)
  then show ?thesis by (simp add: D c)
qed

lemma parseInt_negative:
  assumes "D \<noteq> []" and "\<forall>c\<in>set D. 48 \<le> (of_char c :: nat) \<and> (of_char c :: nat) \<le> 57"
  shows "parseInt (CHR ''-'' # D) = Some (- int (numeral_value 10 D))"
proof -
  have "parseInt (CHR ''-'' # D) =
           Some ((if CHR ''-'' # D \<noteq> [] \<and> hd (CHR ''-'' # D) = CHR ''-'' then - 1 else 1)
                 * int (numeral_value 10 D))"
    using assms by (intro parseInt_bare[where pre = "[CHR ''-'']"]) (simp_all add: is_ws_def)
  then show ?thesis by simp
qed

lemma parseInt_toString: "parseInt (toString i) = Some i"
proof (cases "i < 0")
  case True
  have "parseInt (CHR ''-'' # decimal (nat (- i))) = Some (- int (numeral_value 10 (decimal (nat (- i)))))"
    by (rule parseInt_negative) (simp_all add: decimal_not_empty decimal_chars)
  with True show ?thesis
    by (simp add: toString_def numeral_value_decimal)
next
  case False
  have "parseInt (decimal (nat i)) = Some (int (numeral_value 10 (decimal (nat i))))"
    by (rule parseInt_unsigned) (simp_all add: decimal_not_empty decimal_chars)
  with False show ?thesis
    by (simp add: toString_def numeral_value_decimal)
qed

section \<open>What each handler does to the state\<close>

lemma list_tasks_state: "snd (list_tasks s) = s"
  by (simp add: list_tasks_def)

lemma get_task_state: "snd (get_task seg s) = s"
  by (simp add: get_task_def Let_def split: option.splits)

lemma create_task_state:
  "snd (create_task now b s) = s \<or>
   (\<exists>t. id_t t = nextId s \<and> createdAt t = now \<and>
        snd (create_task now b s) = \<lparr> tasks = tasks s @ [t], nextId = nextId s + 1 \<rparr>)"
proof (cases "b ''title''")
  case None
  then show ?thesis by (simp add: create_task_def)
next
  case (Some ttl)
  show ?thesis
  proof (cases "truthy ttl")
    case False
    with Some show ?thesis by (simp add: create_task_def)
  next
    case True
    let ?t = "\<lparr> id_t = nextId s, title = ttl,
                description = js_or (b ''description'') (JStr []),
                completed = js_or (b ''completed'') (JBool False),
                createdAt = now, updatedAt = None \<rparr>"
    have "snd (create_task now b s) = \<lparr> tasks = tasks s @ [?t], nextId = nextId s + 1 \<rparr>"
      using Some True by (simp add: create_task_def Let_def)
    moreover have "id_t ?t = nextId s" "createdAt ?t = now" by simp_all
    ultimately show ?thesis by blast
  qed
qed

lemma update_task_state:
  "nextId (snd (update_task now seg b s)) = nextId s \<and>
   map id_t (tasks (snd (update_task now seg b s))) = map id_t (tasks s) \<and>
   map createdAt (tasks (snd (update_task now seg b s))) = map createdAt (tasks s)"
proof (cases "findIndex (same_id (parseInt seg)) (tasks s)")
  case None
  then show ?thesis by (simp add: update_task_def)
next
  case (Some k)
  from findIndex_Some[OF Some] have "k < length (tasks s)" by simp
  with Some show ?thesis
    by (simp add: update_task_def Let_def map_update list_update_same_conv)
qed

lemma delete_task_state:
  "nextId (snd (delete_task seg s)) = nextId s \<and>
   subseq (tasks (snd (delete_task seg s))) (tasks s) \<and>
   (\<exists>k. tasks (snd (delete_task seg s)) = take k (tasks s) @ drop (Suc k) (tasks s))"
proof (cases "findIndex (same_id (parseInt seg)) (tasks s)")
  case None
  have "tasks s = take (length (tasks s)) (tasks s) @ drop (Suc (length (tasks s))) (tasks s)"
    by simp
  then have "\<exists>k. tasks s = take k (tasks s) @ drop (Suc k) (tasks s)" ..
  with None show ?thesis
    by (simp add: delete_task_def)
next
  case (Some k)
  then have "tasks (snd (delete_task seg s)) = take k (tasks s) @ drop (Suc k) (tasks s)"
    and "nextId (snd (delete_task seg s)) = nextId s"
    by (simp_all add: delete_task_def)
  then show ?thesis
    using subseq_cut[of k "tasks s"] by auto
qed

lemma distinct_cut: "distinct ys \<Longrightarrow> distinct (take k ys @ drop (Suc k) ys)"
proof (induction ys arbitrary: k)
  case Nil
  show ?case by simp
next
  case (Cons y ys)
  show ?case
  proof (cases k)
    case 0
    with Cons.prems show ?thesis by simp
  next
    case (Suc m)
    with Cons.prems Cons.IH[of m] show ?thesis
      by (auto dest: in_set_takeD in_set_dropD)
  qed
qed

section \<open>Invariant of the store\<close>

lemma step_invariant:
  assumes "distinct (map id_t (tasks s))" and "\<forall>t\<in>set (tasks s). id_t t < nextId s"
  shows "distinct (map id_t (tasks (snd (step r s)))) \<and>
         (\<forall>t\<in>set (tasks (snd (step r s))). id_t t < nextId (snd (step r s)))"
proof (cases r)
  case ListTasks
  with assms show ?thesis by (simp add: list_tasks_state)
next
  case (GetTask seg)
  with assms show ?thesis by (simp add: get_task_state)
next
  case (CreateTask now b)
  from create_task_state[of now b s] show ?thesis
  proof
    assume "snd (create_task now b s) = s"
    with assms CreateTask show ?thesis by simp
  next
    assume "\<exists>t. id_t t = nextId s \<and> createdAt t = now \<and>
        snd (create_task now b s) = \<lparr> tasks = tasks s @ [t], nextId = nextId s + 1 \<rparr>"
    then obtain t where t: "id_t t = nextId s"
      "snd (create_task now b s) = \<lparr> tasks = tasks s @ [t], nextId = nextId s + 1 \<rparr>"
      by blast
    from assms(2) t(1) have "id_t t \<notin> id_t ` set (tasks s)" by auto
    with assms t CreateTask show ?thesis by auto
  qed
next
  case (UpdateTask now seg b)
  let ?s' = "snd (update_task now seg b s)"
  from update_task_state[of now seg b s]
  have n: "nextId ?s' = nextId s" and ids: "map id_t (tasks ?s') = map id_t (tasks s)"
    by simp_all
  have "id_t ` set (tasks ?s') = id_t ` set (tasks s)"
    using ids by (metis set_map)
  have "\<forall>t\<in>set (tasks ?s'). id_t t < nextId ?s'"
  proof
    fix t assume "t \<in> set (tasks ?s')"
    then have "id_t t \<in> id_t ` set (tasks s)"
      using \<open>id_t ` set (tasks ?s') = id_t ` set (tasks s)\<close> by blast
    then obtain t0 where "t0 \<in> set (tasks s)" "id_t t = id_t t0" by blast
    with assms(2) n show "id_t t < nextId ?s'" by simp
  qed
  with assms(1) ids UpdateTask show ?thesis by simp
next
  case (DeleteTask seg)
  let ?s' = "snd (delete_task seg s)"
  from delete_task_state[of seg s] obtain k where
    n: "nextId ?s' = nextId s" and e: "subseq (tasks ?s') (tasks s)"
    and c: "tasks ?s' = take k (tasks s) @ drop (Suc k) (tasks s)"
    by blast
  have "distinct (take k (map id_t (tasks s)) @ drop (Suc k) (map id_t (tasks s)))"
    using assms(1) by (rule distinct_cut)
  then have d: "distinct (map id_t (tasks ?s'))"
    by (simp add: c take_map drop_map)
  have "set (tasks ?s') \<subseteq> set (tasks s)"
    unfolding c by (auto dest: in_set_takeD in_set_dropD)
  with assms(2) n have "\<forall>t\<in>set (tasks ?s'). id_t t < nextId ?s'"
    by auto
  with d DeleteTask show ?thesis by simp
qed

lemma reachable_invariant:
  assumes "reachable s"
  shows "distinct (map id_t (tasks s)) \<and> (\<forall>t\<in>set (tasks s). id_t t < nextId s)"
  using assms
proof (induction rule: reachable.induct)
  case (start boot)
  show ?case by (simp add: init_def)
next
  case (after s r)
  then show ?case by (intro step_invariant) simp_all
qed

lemma reachable_run: "reachable s \<Longrightarrow> reachable (run rs s)"
  by (induction rs arbitrary: s) (auto intro: reachable.after)

text \<open>A task found after a request with an id below the counter before the request was in
  the collection before it, with the same id and the same \<^verbatim>\<open>createdAt\<close>.\<close>

lemma step_old_ids:
  assumes "t' \<in> set (tasks (snd (step r s)))" and "id_t t' < nextId s"
  shows "\<exists>t\<in>set (tasks s). id_t t = id_t t' \<and> createdAt t = createdAt t'"
proof (cases r)
  case ListTasks
  with assms show ?thesis by (auto simp: list_tasks_state)
next
  case (GetTask seg)
  with assms show ?thesis by (auto simp: get_task_state)
next
  case (CreateTask now b)
  from create_task_state[of now b s] show ?thesis
  proof
    assume "snd (create_task now b s) = s"
    with assms CreateTask show ?thesis by auto
  next
    assume "\<exists>t. id_t t = nextId s \<and> createdAt t = now \<and>
        snd (create_task now b s) = \<lparr> tasks = tasks s @ [t], nextId = nextId s + 1 \<rparr>"
    then obtain t where t: "id_t t = nextId s"
      "snd (create_task now b s) = \<lparr> tasks = tasks s @ [t], nextId = nextId s + 1 \<rparr>"
      by blast
    with assms CreateTask have "t' \<in> set (tasks s)" by auto
    then show ?thesis by blast
  qed
next
  case (UpdateTask now seg b)
  let ?s' = "snd (update_task now seg b s)"
  from update_task_state[of now seg b s]
  have ids: "map id_t (tasks ?s') = map id_t (tasks s)"
    and cs: "map createdAt (tasks ?s') = map createdAt (tasks s)"
    by simp_all
  from assms(1) UpdateTask obtain j where j: "j < length (tasks ?s')" "tasks ?s' ! j = t'"
    by (auto simp: in_set_conv_nth)
  from ids have len: "length (tasks ?s') = length (tasks s)"
    by (metis length_map)
  from j len have "id_t (tasks s ! j) = id_t t'"
    using ids by (metis nth_map)
  moreover from j len have "createdAt (tasks s ! j) = createdAt t'"
    using cs by (metis nth_map)
  moreover from j len have "tasks s ! j \<in> set (tasks s)" by simp
  ultimately show ?thesis by blast
next
  case (DeleteTask seg)
  from delete_task_state[of seg s] obtain k where
    c: "tasks (snd (delete_task seg s)) = take k (tasks s) @ drop (Suc k) (tasks s)"
    by blast
  with assms(1) DeleteTask have "t' \<in> set (tasks s)"
    by (auto dest: in_set_takeD in_set_dropD)
  then show ?thesis by blast
qed

lemma step_nextId_mono: "nextId s \<le> nextId (snd (step r s))"
proof (cases r)
  case (CreateTask now b)
  with create_task_state[of now b s] show ?thesis by auto
qed (simp_all add: list_tasks_state get_task_state update_task_state delete_task_state)

lemma run_old_ids:
  assumes "t' \<in> set (tasks (run rs s))" and "id_t t' < nextId s"
  shows "\<exists>t\<in>set (tasks s). id_t t = id_t t' \<and> createdAt t = createdAt t'"
  using assms
proof (induction rs arbitrary: s)
  case Nil
  then show ?case by auto
next
  case (Cons r rs)
  let ?s1 = "snd (step r s)"
  from Cons.prems have "t' \<in> set (tasks (run rs ?s1))" by simp
  moreover from Cons.prems(2) step_nextId_mono[of s r] have "id_t t' < nextId ?s1" by simp
  ultimately obtain t1 where t1: "t1 \<in> set (tasks ?s1)" "id_t t1 = id_t t'"
    "createdAt t1 = createdAt t'"
    using Cons.IH by blast
  from t1(2) Cons.prems(2) have "id_t t1 < nextId s" by simp
  from step_old_ids[OF t1(1) this] t1(2,3) show ?case by auto
qed

text \<open>
  C8. In every state reachable from the initial one the ids of the collection are pairwise
  distinct and every id is below the counter. The counter never goes down, and a task
  found after any further requests with an id below the present counter is a task of the
  present collection with that id and the same \<^verbatim>\<open>createdAt\<close>; so an id that was given out
  and deleted is not given out again. No operation changes the \<^verbatim>\<open>id\<close> or the
  \<^verbatim>\<open>createdAt\<close> of a stored task: create and update keep both at every position, and
  delete leaves the remaining records as they were.
\<close>

theorem store_invariant:
  assumes "reachable s"
  shows "distinct (map id_t (tasks s)) \<and>
         (\<forall>t\<in>set (tasks s). id_t t < nextId s) \<and>
         (\<forall>r. nextId s \<le> nextId (snd (step r s))) \<and>
         (\<forall>rs. \<forall>t'\<in>set (tasks (run rs s)). id_t t' < nextId s \<longrightarrow>
            (\<exists>t\<in>set (tasks s). id_t t = id_t t' \<and> createdAt t = createdAt t')) \<and>
         (\<forall>now b. map id_t (take (length (tasks s)) (tasks (snd (create_task now b s))))
                    = map id_t (tasks s) \<and>
                  map createdAt (take (length (tasks s)) (tasks (snd (create_task now b s))))
                    = map createdAt (tasks s)) \<and>
         (\<forall>now seg b. map id_t (tasks (snd (update_task now seg b s))) = map id_t (tasks s) \<and>
                  map createdAt (tasks (snd (update_task now seg b s)))
                    = map createdAt (tasks s)) \<and>
         (\<forall>seg. subseq (tasks (snd (delete_task seg s))) (tasks s))"
proof -
  from reachable_invariant[OF assms]
  have inv: "distinct (map id_t (tasks s))" "\<forall>t\<in>set (tasks s). id_t t < nextId s"
    by simp_all
  have mono: "\<forall>r. nextId s \<le> nextId (snd (step r s))"
    by (simp add: step_nextId_mono)
  have old: "\<forall>rs. \<forall>t'\<in>set (tasks (run rs s)). id_t t' < nextId s \<longrightarrow>
            (\<exists>t\<in>set (tasks s). id_t t = id_t t' \<and> createdAt t = createdAt t')"
    using run_old_ids by blast
  have cr: "\<forall>now b. map id_t (take (length (tasks s)) (tasks (snd (create_task now b s))))
                    = map id_t (tasks s) \<and>
                  map createdAt (take (length (tasks s)) (tasks (snd (create_task now b s))))
                    = map createdAt (tasks s)"
  proof (intro allI)
    fix now b
    from create_task_state[of now b s]
    show "map id_t (take (length (tasks s)) (tasks (snd (create_task now b s))))
                    = map id_t (tasks s) \<and>
          map createdAt (take (length (tasks s)) (tasks (snd (create_task now b s))))
                    = map createdAt (tasks s)"
      by auto
  qed
  have up: "\<forall>now seg b. map id_t (tasks (snd (update_task now seg b s))) = map id_t (tasks s) \<and>
                  map createdAt (tasks (snd (update_task now seg b s)))
                    = map createdAt (tasks s)"
    using update_task_state[of _ _ _ s] by simp
  have de: "\<forall>seg. subseq (tasks (snd (delete_task seg s))) (tasks s)"
    using delete_task_state[of _ s] by simp
  from inv mono old cr up de show ?thesis by (intro conjI)
qed

theorem store_invariant_witness:
  "reachable (run [CreateTask ''2024-05-01T10:00:00.000Z'' [''title'' \<mapsto> JStr ''Buy milk''],
                   DeleteTask ''1'',
                   CreateTask ''2024-05-03T10:00:00.000Z'' [''title'' \<mapsto> JStr ''Walk'']]
              (init ''2024-01-01T00:00:00.000Z''))
   \<and> distinct (map id_t (tasks
        (run [CreateTask ''2024-05-01T10:00:00.000Z'' [''title'' \<mapsto> JStr ''Buy milk''],
                   DeleteTask ''1'',
                   CreateTask ''2024-05-03T10:00:00.000Z'' [''title'' \<mapsto> JStr ''Walk'']]
              (init ''2024-01-01T00:00:00.000Z''))))
   \<and> map id_t (tasks
        (run [CreateTask ''2024-05-01T10:00:00.000Z'' [''title'' \<mapsto> JStr ''Buy milk''],
                   DeleteTask ''1'',
                   CreateTask ''2024-05-03T10:00:00.000Z'' [''title'' \<mapsto> JStr ''Walk'']]
              (init ''2024-01-01T00:00:00.000Z''))) = [2, 3]
   \<and> nextId
        (run [CreateTask ''2024-05-01T10:00:00.000Z'' [''title'' \<mapsto> JStr ''Buy milk''],
                   DeleteTask ''1'',
                   CreateTask ''2024-05-03T10:00:00.000Z'' [''title'' \<mapsto> JStr ''Walk'']]
              (init ''2024-01-01T00:00:00.000Z'')) = 4"
proof -
  let ?s = "run [CreateTask ''2024-05-01T10:00:00.000Z'' [''title'' \<mapsto> JStr ''Buy milk''],
                   DeleteTask ''1'',
                   CreateTask ''2024-05-03T10:00:00.000Z'' [''title'' \<mapsto> JStr ''Walk'']]
              (init ''2024-01-01T00:00:00.000Z'')"
  have r: "reachable ?s"
    by (rule reachable_run) (rule reachable.start)
  from store_invariant[OF r] have d: "distinct (map id_t (tasks ?s))"
    by (rule conjunct1)
  have v: "map id_t (tasks ?s) = [2, 3]" "nextId ?s = 4"
    by (simp_all add: init_def create_task_def delete_task_def parseInt_1 same_id_def Let_def)
  from r d v show ?thesis by (intro conjI)
qed

section \<open>Create, then get\<close>

lemma find_append_miss:
  assumes "\<forall>x\<in>set xs. \<not> P x"
  shows "find P (xs @ ys) = find P ys"
  using assms by (induction xs) simp_all

text \<open>
  C9. In every reachable state, creating a task from a valid request and then getting it by
  the decimal numeral of the id in the returned record succeeds, and the record it yields
  is the record that create returned.
\<close>

theorem create_then_get:
  assumes "reachable s" and "b ''title'' = Some ttl" and "truthy ttl"
  shows "\<exists>t. fst (create_task now b s) =
               \<lparr> status = 201, success = True, message = Some ''Tarefa criada com sucesso'',
                 data = Some (Single t), total = None \<rparr> \<and>
             get_task (toString (id_t t)) (snd (create_task now b s)) =
               (\<lparr> status = 200, success = True, message = None,
                  data = Some (Single t), total = None \<rparr>,
                snd (create_task now b s))"
proof -
  let ?t = "\<lparr> id_t = nextId s, title = ttl,
              description = js_or (b ''description'') (JStr []),
              completed = js_or (b ''completed'') (JBool False),
              createdAt = now, updatedAt = None \<rparr>"
  let ?s' = "snd (create_task now b s)"
  have r: "fst (create_task now b s) =
               \<lparr> status = 201, success = True, message = Some ''Tarefa criada com sucesso'',
                 data = Some (Single ?t), total = None \<rparr>"
    using assms(2,3) by (simp add: create_task_def Let_def)
  have s': "tasks ?s' = tasks s @ [?t]"
    using assms(2,3) by (simp add: create_task_def Let_def)
  from reachable_invariant[OF assms(1)]
  have "\<forall>x\<in>set (tasks s). \<not> same_id (Some (nextId s)) x"
    by (auto simp: same_id_def)
  then have "find (same_id (Some (nextId s))) (tasks s @ [?t]) = find (same_id (Some (nextId s))) [?t]"
    by (rule find_append_miss)
  then have "find (same_id (parseInt (toString (id_t ?t)))) (tasks ?s') = Some ?t"
    by (simp add: s' parseInt_toString same_id_def)
  then have "get_task (toString (id_t ?t)) ?s' =
               (\<lparr> status = 200, success = True, message = None,
                  data = Some (Single ?t), total = None \<rparr>, ?s')"
    by (simp add: get_task_def)
  with r show ?thesis by blast
qed

lemma toString_2: "toString 2 = ''2''"
  by code_simp

theorem create_then_get_witness:
  "get_task ''2'' (snd (create_task ''2024-05-01T10:00:00.000Z'' [''title'' \<mapsto> JStr ''Buy milk'']
       (init ''2024-01-01T00:00:00.000Z''))) =
     (\<lparr> status = 200, success = True, message = None,
        data = Some (Single \<lparr> id_t = 2, title = JStr ''Buy milk'', description = JStr [],
                 completed = JBool False,
                 createdAt = ''2024-05-01T10:00:00.000Z'', updatedAt = None \<rparr>),
        total = None \<rparr>,
      snd (create_task ''2024-05-01T10:00:00.000Z'' [''title'' \<mapsto> JStr ''Buy milk'']
       (init ''2024-01-01T00:00:00.000Z'')))"
proof -
  let ?s = "init ''2024-01-01T00:00:00.000Z''"
  let ?b = "[''title'' \<mapsto> JStr ''Buy milk'']"
  let ?t = "\<lparr> id_t = 2, title = JStr ''Buy milk'', description = JStr [],
                 completed = JBool False,
                 createdAt = ''2024-05-01T10:00:00.000Z'', updatedAt = None \<rparr>"
  have h1: "reachable ?s" by (rule reachable.start)
  have h2: "?b ''title'' = Some (JStr ''Buy milk'')" by simp
  have h3: "truthy (JStr ''Buy milk'')" by simp
  have made: "fst (create_task ''2024-05-01T10:00:00.000Z'' ?b ?s) =
               \<lparr> status = 201, success = True, message = Some ''Tarefa criada com sucesso'',
                 data = Some (Single ?t), total = None \<rparr>"
    by (simp add: create_task_def init_def Let_def)
  from create_then_get[where s = ?s and b = ?b and ttl = "JStr ''Buy milk''"
      and now = "''2024-05-01T10:00:00.000Z''", OF h1 h2 h3]
  obtain t where t: "fst (create_task ''2024-05-01T10:00:00.000Z'' ?b ?s) =
               \<lparr> status = 201, success = True, message = Some ''Tarefa criada com sucesso'',
                 data = Some (Single t), total = None \<rparr>"
    and g: "get_task (toString (id_t t)) (snd (create_task ''2024-05-01T10:00:00.000Z'' ?b ?s)) =
               (\<lparr> status = 200, success = True, message = None,
                  data = Some (Single t), total = None \<rparr>,
                snd (create_task ''2024-05-01T10:00:00.000Z'' ?b ?s))"
    by (elim exE conjE)
  from t made have "t = ?t" by simp
  with g show ?thesis by (simp add: toString_2)
qed

end
